theory Spec2Isabelle
  imports Complex_Main
begin

section \<open>Data model\<close>

text \<open>
  A parsed example document, as \<^verbatim>\<open>json.load\<close> hands it to the analyser. A Python
  \<^verbatim>\<open>dict\<close> is an association list in insertion order (a real dict has pairwise distinct
  keys); \<^verbatim>\<open>int\<close> and finite \<^verbatim>\<open>float\<close> values are the rationals they denote.
\<close>

datatype json =
    JNull
  | JBool bool
  | JNum rat
  | JStr string
  | JArr "json list"
  | JObj "(string \<times> json) list"

text \<open>
  A schema node is the Python dict the analyser builds. The code only ever writes and reads
  the keys \<^verbatim>\<open>type\<close>, \<^verbatim>\<open>properties\<close>, \<^verbatim>\<open>items\<close>, \<^verbatim>\<open>preserve_original\<close> and
  \<^verbatim>\<open>original_values\<close>, and reads each of them with \<^verbatim>\<open>.get\<close>, so each key is optional
  in the model: \<open>None\<close> is an absent key.
\<close>

datatype node = Node
  (ntype: "string option")
  (properties: "(string \<times> node) list option")
  (items: "node option")
  (preserve_original: "bool option")
  (original_values: "json list option")

text \<open>The dict literals of the source.\<close>

definition leaf :: "string \<Rightarrow> node" where
  "leaf t = Node (Some t) None None None None"

definition object_node :: "(string \<times> node) list \<Rightarrow> node" where
  "object_node ps = Node (Some ''object'') (Some ps) None None None"

definition array_node :: "node \<Rightarrow> node" where
  "array_node it = Node (Some ''array'') None (Some it) None None"

text \<open>\<^verbatim>\<open>d[key] = value\<close> on an insertion-ordered dict, and \<^verbatim>\<open>d[key]\<close>, \<^verbatim>\<open>key in d\<close>.\<close>

fun dict_set :: "string \<Rightarrow> 'v \<Rightarrow> (string \<times> 'v) list \<Rightarrow> (string \<times> 'v) list" where
  "dict_set k v [] = [(k, v)]"
| "dict_set k v ((k', v') # d) = (if k = k' then (k, v) # d else (k', v') # dict_set k v d)"

definition dict_get :: "(string \<times> 'v) list \<Rightarrow> string \<Rightarrow> 'v option" where
  "dict_get d k = map_of d k"

definition dict_has :: "(string \<times> 'v) list \<Rightarrow> string \<Rightarrow> bool" where
  "dict_has d k = (k \<in> set (map fst d))"

text \<open>\<^verbatim>\<open>structure.get("properties", {})\<close> and \<^verbatim>\<open>structure.get("items", {"type": "string"})\<close>.\<close>

definition get_properties :: "node \<Rightarrow> (string \<times> node) list" where
  "get_properties s = (case properties s of None \<Rightarrow> [] | Some ps \<Rightarrow> ps)"

definition get_items :: "node \<Rightarrow> node" where
  "get_items s = (case items s of None \<Rightarrow> leaf ''string'' | Some it \<Rightarrow> it)"

section \<open>Structure merger (MockDataGenerator)\<close>

text \<open>
  \<^verbatim>\<open>MockDataGenerator._merge_structures\<close>. The loop over the properties of the second
  structure is the \<open>fold\<close>; \<open>merged_props\<close> is its accumulator.
\<close>

function mdg_merge_structures :: "node \<Rightarrow> node \<Rightarrow> node" where
  "mdg_merge_structures structure1 structure2 =
    (if ntype structure1 \<noteq> ntype structure2 then
       (if ntype structure1 \<noteq> Some ''string'' then structure1 else structure2)
     else if ntype structure1 = Some ''object'' then
       object_node
         (fold (\<lambda>kv merged_props.
                  (case dict_get merged_props (fst kv) of
                     Some old \<Rightarrow> dict_set (fst kv) (mdg_merge_structures old (snd kv)) merged_props
                   | None \<Rightarrow> dict_set (fst kv) (snd kv) merged_props))
               (get_properties structure2) (get_properties structure1))
     else if ntype structure1 = Some ''array'' then
       array_node (mdg_merge_structures (get_items structure1) (get_items structure2))
     else structure1)"
  by pat_completeness auto

lemma size_option_pos: "0 < size_option f x"
  by (cases x) auto

lemma size_prop_child:
  "(k, v) \<in> set ps \<Longrightarrow> size v < Suc (size_list (size_prod (\<lambda>x. 0) size) ps)"
  by (induction ps) auto

lemma size_get_properties:
  "kv \<in> set (get_properties s) \<Longrightarrow> size (snd kv) < size s"
  by (cases s; cases kv) (auto simp: get_properties_def dest: size_prop_child split: option.splits)

lemma size_get_items:
  "2 * size (get_items s) + (if ntype (get_items s) = Some ''array'' then 1 else 0) < 2 * size s + 1"
  using size_option_pos [of "size_list (size_prod (\<lambda>x. 0) size)" "properties s"]
  by (cases s) (auto simp: get_items_def leaf_def split: option.splits)

termination mdg_merge_structures
  apply (relation "measure (\<lambda>(s1, s2). 2 * size s2 + (if ntype s2 = Some ''array'' then 1 else 0))")
    apply simp
  subgoal for structure1 structure2 kv merged_props old
    using size_get_properties [of kv structure2] by auto
  subgoal for structure1 structure2
    using size_get_items [of structure2] by auto
  done

declare mdg_merge_structures.simps [simp del]

section \<open>Structure analyser (MockDataGenerator)\<close>

text \<open>
  \<^verbatim>\<open>MockDataGenerator._analyze_structure\<close>. \<open>mdg_analyze_props\<close> is the loop
  filling \<^verbatim>\<open>structure["properties"]\<close>, \<open>mdg_analyze_items\<close> the loop building
  \<^verbatim>\<open>item_structures\<close>, and \<open>mdg_merge_items\<close> the loop over
  \<^verbatim>\<open>item_structures[1:]\<close>. A value that is no dict, list, bool, number or string
  (\<^verbatim>\<open>None\<close>) takes the final \<^verbatim>\<open>else\<close>.
\<close>

fun mdg_merge_items :: "node list \<Rightarrow> node \<Rightarrow> node" where
  "mdg_merge_items [] merged_items = merged_items"
| "mdg_merge_items (item_structure # rest) merged_items =
     mdg_merge_items rest (mdg_merge_structures merged_items item_structure)"

fun mdg_analyze_structure :: "json \<Rightarrow> int \<Rightarrow> node"
  and mdg_analyze_props :: "(string \<times> json) list \<Rightarrow> int \<Rightarrow> (string \<times> node) list \<Rightarrow> (string \<times> node) list"
  and mdg_analyze_items :: "json list \<Rightarrow> int \<Rightarrow> node list"
where
  "mdg_analyze_structure obj max_depth =
    (if max_depth \<le> 0 then leaf ''string''
     else case obj of
       JObj kvs \<Rightarrow> object_node (mdg_analyze_props kvs max_depth [])
     | JArr xs \<Rightarrow>
         (if xs \<noteq> [] then
            (case mdg_analyze_items xs max_depth of
               first # rest \<Rightarrow> array_node (mdg_merge_items rest first)
             | [] \<Rightarrow> array_node (leaf ''string''))
          else array_node (object_node []))
     | JBool b \<Rightarrow> leaf ''boolean''
     | JNum n \<Rightarrow> leaf ''number''
     | JStr s \<Rightarrow> leaf ''string''
     | JNull \<Rightarrow> leaf ''string'')"
| "mdg_analyze_props [] max_depth props = props"
| "mdg_analyze_props ((key, val) # rest) max_depth props =
     mdg_analyze_props rest max_depth
       (dict_set key (mdg_analyze_structure val (max_depth - 1)) props)"
| "mdg_analyze_items [] max_depth = []"
| "mdg_analyze_items (item # rest) max_depth =
     mdg_analyze_structure item (max_depth - 1) # mdg_analyze_items rest max_depth"

section \<open>Structure merger and analyser (SchemaAnalyzer)\<close>

text \<open>
  Class \<^verbatim>\<open>SchemaAnalyzer\<close> defines the method \<^verbatim>\<open>merge_structures\<close>, yet every call in
  the class is written \<^verbatim>\<open>self._merge_structures(...)\<close>, a name the class does not
  define: evaluating the attribute raises \<^verbatim>\<open>AttributeError\<close> before any argument is
  evaluated.
\<close>

datatype error = AttributeError string

definition sa_missing_merge_structures :: "node \<Rightarrow> node \<Rightarrow> error + node" where
  "sa_missing_merge_structures structure1 structure2 = Inl (AttributeError ''_merge_structures'')"

text \<open>The loop of \<^verbatim>\<open>SchemaAnalyzer.merge_structures\<close> over the second structure's properties.\<close>

fun sa_merge_props :: "(string \<times> node) list \<Rightarrow> (string \<times> node) list \<Rightarrow> error + (string \<times> node) list" where
  "sa_merge_props [] merged_props = Inr merged_props"
| "sa_merge_props ((key, val) # rest) merged_props =
     (case dict_get merged_props key of
        Some old \<Rightarrow>
          (case sa_missing_merge_structures old val of
             Inl e \<Rightarrow> Inl e
           | Inr m \<Rightarrow> sa_merge_props rest (dict_set key m merged_props))
      | None \<Rightarrow> sa_merge_props rest (dict_set key val merged_props))"

definition sa_merge_structures :: "node \<Rightarrow> node \<Rightarrow> error + node" where
  "sa_merge_structures structure1 structure2 =
    (if ntype structure1 \<noteq> ntype structure2 then
       Inr (if ntype structure1 \<noteq> Some ''string'' then structure1 else structure2)
     else if ntype structure1 = Some ''object'' then
       (case sa_merge_props (get_properties structure2) (get_properties structure1) of
          Inl e \<Rightarrow> Inl e
        | Inr merged_props \<Rightarrow> Inr (object_node merged_props))
     else if ntype structure1 = Some ''array'' then
       (case sa_missing_merge_structures (get_items structure1) (get_items structure2) of
          Inl e \<Rightarrow> Inl e
        | Inr merged_items \<Rightarrow> Inr (array_node merged_items))
     else Inr structure1)"

text \<open>\<^verbatim>\<open>SchemaAnalyzer._analyze_structure\<close>, with the same three loops.\<close>

fun sa_merge_items :: "node list \<Rightarrow> node \<Rightarrow> error + node" where
  "sa_merge_items [] merged_items = Inr merged_items"
| "sa_merge_items (item_structure # rest) merged_items =
     (case sa_missing_merge_structures merged_items item_structure of
        Inl e \<Rightarrow> Inl e
      | Inr m \<Rightarrow> sa_merge_items rest m)"

fun sa_analyze_structure_rec :: "json \<Rightarrow> int \<Rightarrow> error + node"
  and sa_analyze_props :: "(string \<times> json) list \<Rightarrow> int \<Rightarrow> (string \<times> node) list \<Rightarrow> error + (string \<times> node) list"
  and sa_analyze_items :: "json list \<Rightarrow> int \<Rightarrow> error + node list"
where
  "sa_analyze_structure_rec obj max_depth =
    (if max_depth \<le> 0 then Inr (leaf ''string'')
     else case obj of
       JObj kvs \<Rightarrow>
         (case sa_analyze_props kvs max_depth [] of
            Inl e \<Rightarrow> Inl e
          | Inr props \<Rightarrow> Inr (object_node props))
     | JArr xs \<Rightarrow>
         (if xs \<noteq> [] then
            (case sa_analyze_items xs max_depth of
               Inl e \<Rightarrow> Inl e
             | Inr (first # rest) \<Rightarrow>
                 (case sa_merge_items rest first of
                    Inl e \<Rightarrow> Inl e
                  | Inr merged_items \<Rightarrow> Inr (array_node merged_items))
             | Inr [] \<Rightarrow> Inr (array_node (leaf ''string'')))
          else Inr (array_node (object_node [])))
     | JBool b \<Rightarrow> Inr (leaf ''boolean'')
     | JNum n \<Rightarrow> Inr (leaf ''number'')
     | JStr s \<Rightarrow> Inr (leaf ''string'')
     | JNull \<Rightarrow> Inr (leaf ''string''))"
| "sa_analyze_props [] max_depth props = Inr props"
| "sa_analyze_props ((key, val) # rest) max_depth props =
     (case sa_analyze_structure_rec val (max_depth - 1) of
        Inl e \<Rightarrow> Inl e
      | Inr child \<Rightarrow> sa_analyze_props rest max_depth (dict_set key child props))"
| "sa_analyze_items [] max_depth = Inr []"
| "sa_analyze_items (item # rest) max_depth =
     (case sa_analyze_structure_rec item (max_depth - 1) of
        Inl e \<Rightarrow> Inl e
      | Inr item_structure \<Rightarrow>
          (case sa_analyze_items rest max_depth of
             Inl e \<Rightarrow> Inl e
           | Inr item_structures \<Rightarrow> Inr (item_structure # item_structures)))"

section \<open>Well-formed schema nodes\<close>

text \<open>
  The five type tags the analysers write, and the shape the generator's dispatch reads: an
  \<^verbatim>\<open>object\<close> node carries \<^verbatim>\<open>properties\<close>, an \<^verbatim>\<open>array\<close> node carries
  \<^verbatim>\<open>items\<close>, every node below carries one of the five tags.
\<close>

definition kinds :: "string list" where
  "kinds = [''object'', ''array'', ''string'', ''number'', ''boolean'']"

function well_formed :: "node \<Rightarrow> bool" where
  "well_formed s =
    (if ntype s = Some ''object'' then
       (case properties s of
          None \<Rightarrow> False
        | Some props \<Rightarrow> list_all (\<lambda>kv. well_formed (snd kv)) props)
     else if ntype s = Some ''array'' then
       (case items s of None \<Rightarrow> False | Some it \<Rightarrow> well_formed it)
     else ntype s \<in> Some ` set kinds)"
  by pat_completeness auto

lemma size_properties_child:
  "properties s = Some props \<Longrightarrow> kv \<in> set props \<Longrightarrow> size (snd kv) < size s"
  by (cases s; cases kv) (auto dest: size_prop_child)

lemma size_items_child: "items s = Some it \<Longrightarrow> size it < size s"
  by (cases s) auto

termination well_formed
  apply (relation "measure size")
    apply simp
   apply (simp add: size_properties_child)
  apply (simp add: size_items_child)
  done

declare well_formed.simps [simp del]

section \<open>Schemas as the dict literals build them\<close>

text \<open>
  The analysers and the mergers build every \<^verbatim>\<open>object\<close> node as the literal
  \<^verbatim>\<open>{"type": "object", "properties": ...}\<close> and every \<^verbatim>\<open>array\<close> node as the literal
  \<^verbatim>\<open>{"type": "array", "items": ...}\<close>, with no other key. \<open>plain_schema\<close> holds of
  the trees whose object and array nodes have exactly this shape (and, being dicts, pairwise
  distinct property names); it asks nothing of the other nodes.
\<close>

function plain_schema :: "node \<Rightarrow> bool" where
  "plain_schema s =
    (if ntype s = Some ''object'' then
       items s = None \<and> preserve_original s = None \<and> original_values s = None \<and>
       (case properties s of
          None \<Rightarrow> False
        | Some props \<Rightarrow> distinct (map fst props) \<and> list_all (\<lambda>kv. plain_schema (snd kv)) props)
     else if ntype s = Some ''array'' then
       properties s = None \<and> preserve_original s = None \<and> original_values s = None \<and>
       (case items s of None \<Rightarrow> False | Some it \<Rightarrow> plain_schema it)
     else True)"
  by pat_completeness auto

termination plain_schema
  apply (relation "measure size")
    apply simp
   apply (simp add: size_properties_child)
  apply (simp add: size_items_child)
  done

declare plain_schema.simps [simp del]

section \<open>Preserved fields\<close>

text \<open>
  Python's \<^verbatim>\<open>==\<close> on parsed JSON values: \<^verbatim>\<open>True == 1\<close> and \<^verbatim>\<open>False == 0\<close> hold, lists are
  compared element by element, dicts as finite maps whatever the insertion order. It is the
  test behind \<^verbatim>\<open>value not in values\<close>.
\<close>

lemma size_json_elem: "z \<in> set xs \<Longrightarrow> size (z::json) < Suc (size_list size xs)"
  by (induction xs) auto

lemma size_json_entry:
  "(k, v) \<in> set d \<Longrightarrow> size (v::json) < Suc (size_list (size_prod (\<lambda>x. 0) size) d)"
  by (induction d) auto

function py_eq :: "json \<Rightarrow> json \<Rightarrow> bool" where
  "py_eq JNull b = (b = JNull)"
| "py_eq (JBool x) b = (case b of JBool y \<Rightarrow> x = y | JNum n \<Rightarrow> of_bool x = n | _ \<Rightarrow> False)"
| "py_eq (JNum m) b = (case b of JBool y \<Rightarrow> m = of_bool y | JNum n \<Rightarrow> m = n | _ \<Rightarrow> False)"
| "py_eq (JStr s) b = (b = JStr s)"
| "py_eq (JArr xs) b = (case b of JArr ys \<Rightarrow> list_all2 py_eq xs ys | _ \<Rightarrow> False)"
| "py_eq (JObj d) b =
     (case b of
        JObj e \<Rightarrow>
          list_all (\<lambda>k. case map_of d k of
                           None \<Rightarrow> False
                         | Some v \<Rightarrow> (case map_of e k of None \<Rightarrow> False | Some w \<Rightarrow> py_eq v w))
            (map fst d)
          \<and> list_all (dict_has d) (map fst e)
      | _ \<Rightarrow> False)"
  by pat_completeness auto

termination py_eq
  apply (relation "measure (\<lambda>(a, b). size a)")
    apply simp
   apply (auto dest: size_json_elem)[1]
  apply (auto dest!: map_of_SomeD dest: size_json_entry)[1]
  done

definition py_in :: "json \<Rightarrow> json list \<Rightarrow> bool" where
  "py_in v vs = list_ex (\<lambda>w. py_eq v w) vs"

text \<open>
  The set literal of \<^verbatim>\<open>SchemaAnalyzer._should_preserve_field\<close>; the attribute
  \<^verbatim>\<open>MockDataGenerator.preserve_fields\<close> is initialised to the same set.
\<close>

definition preserve_fields :: "string list" where
  "preserve_fields =
    [''status'', ''message'', ''transId'', ''entity'',
     ''id'',
     ''requiredRenewal'', ''isExpired'', ''isActive'', ''isSmart'', ''isKlasi'', ''isRiziko'',
     ''isCopyPolicyDoc'', ''isPaila'', ''isIndependent'', ''isNew'',
     ''sign'',
     ''eSite'',
     ''totalPayments'',
     ''paymentNo'',
     ''yieldBeginningYear'', ''lastDeposit'', ''depositedThisYear'', ''availableWithdraw'',
     ''withdrawDate'', ''yieldFromYearBeginningTotal'',
     ''fromDeposit'', ''fromSaving'', ''yieldUpdateDate'', ''dailyYieldUpdateDate'',
     ''hasProfitsShare'', ''updateTo'', ''dailyUpdateTo'', ''tsuotPopup'']"

definition should_preserve_field :: "string \<Rightarrow> bool" where
  "should_preserve_field field_name = (field_name \<in> set preserve_fields)"

text \<open>
  \<^verbatim>\<open>_extract_original_values\<close>: \<open>extract_values_loop\<close> is its \<^verbatim>\<open>for\<close> loop, with the list
  \<^verbatim>\<open>values\<close> as accumulator. \<^verbatim>\<open>_extract_nested_value\<close> returns \<^verbatim>\<open>None\<close>, here \<open>JNull\<close>,
  for a missing key and for an example that is no dict.
\<close>

fun extract_values_loop :: "string \<Rightarrow> json list \<Rightarrow> json list \<Rightarrow> json list" where
  "extract_values_loop field_name [] values = values"
| "extract_values_loop field_name (example # rest) values =
     (case example of
        JObj d \<Rightarrow>
          (case dict_get d field_name of
             Some v \<Rightarrow>
               extract_values_loop field_name rest
                 (if \<not> py_in v values then values @ [v] else values)
           | None \<Rightarrow> extract_values_loop field_name rest values)
      | _ \<Rightarrow> extract_values_loop field_name rest values)"

definition extract_original_values :: "string \<Rightarrow> json list \<Rightarrow> json list" where
  "extract_original_values field_name examples = extract_values_loop field_name examples []"

definition extract_nested_value :: "json \<Rightarrow> string \<Rightarrow> json" where
  "extract_nested_value obj field_name =
    (case obj of
       JObj d \<Rightarrow> (case dict_get d field_name of Some v \<Rightarrow> v | None \<Rightarrow> JNull)
     | _ \<Rightarrow> JNull)"

text \<open>
  \<^verbatim>\<open>_add_preserved_field_info\<close> writes into the dicts of the tree it is given. The trees the
  analysers and mergers build share no node between two positions, so the in-place writes are
  the functional update below, which returns the annotated tree. The two classes have the same
  body, up to the membership test \<open>preserve\<close>: \<^verbatim>\<open>self._should_preserve_field(field_name)\<close>
  in \<^verbatim>\<open>SchemaAnalyzer\<close>, \<^verbatim>\<open>field_name in self.preserve_fields\<close> in
  \<^verbatim>\<open>MockDataGenerator\<close>. \<open>mark_preserved\<close> is the first \<^verbatim>\<open>if\<close> of the loop body.
  \<^verbatim>\<open>structure.get("items", {})\<close> on a node without \<^verbatim>\<open>items\<close> annotates a fresh empty
  dict, which leaves the tree as it is.
\<close>

definition set_properties :: "node \<Rightarrow> (string \<times> node) list \<Rightarrow> node" where
  "set_properties s ps = Node (ntype s) (Some ps) (items s) (preserve_original s) (original_values s)"

definition set_items :: "node \<Rightarrow> node \<Rightarrow> node" where
  "set_items s it = Node (ntype s) (properties s) (Some it) (preserve_original s) (original_values s)"

definition set_preserve_original :: "node \<Rightarrow> bool \<Rightarrow> node" where
  "set_preserve_original s b = Node (ntype s) (properties s) (items s) (Some b) (original_values s)"

definition set_original_values :: "node \<Rightarrow> json list \<Rightarrow> node" where
  "set_original_values s vs = Node (ntype s) (properties s) (items s) (preserve_original s) (Some vs)"

definition mark_preserved :: "(string \<Rightarrow> bool) \<Rightarrow> string \<Rightarrow> json list \<Rightarrow> node \<Rightarrow> node" where
  "mark_preserved preserve field_name examples field_structure =
    (if preserve field_name then
       (let marked = set_preserve_original field_structure True;
            original_values = extract_original_values field_name examples
        in if original_values \<noteq> [] then set_original_values marked original_values else marked)
     else field_structure)"

definition nested_examples :: "string \<Rightarrow> json list \<Rightarrow> json list" where
  "nested_examples field_name examples =
     filter (\<lambda>ex. ex \<noteq> JNull) (map (\<lambda>example. extract_nested_value example field_name) examples)"

definition array_examples :: "string \<Rightarrow> json list \<Rightarrow> json list" where
  "array_examples field_name examples =
     concat (map (\<lambda>example. case extract_nested_value example field_name of
                               JArr array_value \<Rightarrow> array_value
                             | _ \<Rightarrow> []) examples)"

function add_preserved_field_info :: "(string \<Rightarrow> bool) \<Rightarrow> node \<Rightarrow> json list \<Rightarrow> node" where
  "add_preserved_field_info preserve structure examples =
    (if ntype structure = Some ''object'' then
       (case properties structure of
          None \<Rightarrow> structure
        | Some props \<Rightarrow>
            set_properties structure
              (map (\<lambda>kv.
                 (fst kv,
                  (let field_structure = mark_preserved preserve (fst kv) examples (snd kv) in
                   if ntype field_structure = Some ''object'' then
                     (if nested_examples (fst kv) examples \<noteq> [] then
                        add_preserved_field_info preserve field_structure
                          (nested_examples (fst kv) examples)
                      else field_structure)
                   else if ntype field_structure = Some ''array'' then
                     (if array_examples (fst kv) examples \<noteq> [] then
                        (case items field_structure of
                           None \<Rightarrow> field_structure
                         | Some items_structure \<Rightarrow>
                             set_items field_structure
                               (add_preserved_field_info preserve items_structure
                                  (array_examples (fst kv) examples)))
                      else field_structure)
                   else field_structure)))
                 props))
     else if ntype structure = Some ''array'' then
       (if examples \<noteq> [] then
          (case items structure of
             None \<Rightarrow> structure
           | Some items_structure \<Rightarrow>
               set_items structure (add_preserved_field_info preserve items_structure examples))
        else structure)
     else structure)"
  by pat_completeness auto

lemma size_mark_preserved [simp]:
  "size (mark_preserved preserve field_name examples s) = size s"
  by (cases s)
    (simp add: mark_preserved_def set_preserve_original_def set_original_values_def Let_def)

lemma size_marked_items_child:
  assumes "properties s = Some props" and "kv \<in> set props"
    and "items (mark_preserved preserve (fst kv) examples (snd kv)) = Some it"
  shows "size it < size s"
  using size_properties_child [OF assms(1,2)] size_items_child [OF assms(3)] by simp

termination add_preserved_field_info
  apply (relation "measure (\<lambda>(preserve, structure, examples). size structure)")
     apply simp
    apply (simp add: size_properties_child)
   apply (simp add: size_marked_items_child)
  apply (simp add: size_items_child)
  done

declare add_preserved_field_info.simps [simp del]

definition sa_add_preserved_field_info :: "node \<Rightarrow> json list \<Rightarrow> node" where
  "sa_add_preserved_field_info = add_preserved_field_info should_preserve_field"

definition mdg_add_preserved_field_info :: "string list \<Rightarrow> node \<Rightarrow> json list \<Rightarrow> node" where
  "mdg_add_preserved_field_info self_preserve_fields =
     add_preserved_field_info (\<lambda>field_name. field_name \<in> set self_preserve_fields)"

text \<open>
  The specification's words for the candidate pool: the values of the field across the
  examples that are mappings, and deduplication by equality in first-occurrence order.
\<close>

definition spec_field_values :: "string \<Rightarrow> json list \<Rightarrow> json list" where
  "spec_field_values field_name examples =
     concat (map (\<lambda>example. case example of
                               JObj d \<Rightarrow> (case dict_get d field_name of Some v \<Rightarrow> [v] | None \<Rightarrow> [])
                             | _ \<Rightarrow> []) examples)"

fun spec_dedup_first :: "json list \<Rightarrow> json list" where
  "spec_dedup_first [] = []"
| "spec_dedup_first (v # vs) = v # spec_dedup_first (filter (\<lambda>w. \<not> py_eq w v) vs)"

section \<open>Schema cache and the public entry point\<close>

text \<open>
  \<^verbatim>\<open>SchemaCache\<close> wraps one dict; the cache of an analyser is threaded through the calls
  as a value.
\<close>

type_synonym schema_cache = "(string \<times> node) list"

definition set_schema :: "schema_cache \<Rightarrow> string \<Rightarrow> node \<Rightarrow> schema_cache" where
  "set_schema cache key schema = dict_set key schema cache"

definition get_schema :: "schema_cache \<Rightarrow> string \<Rightarrow> node option" where
  "get_schema cache key = dict_get cache key"

text \<open>
  The loop of \<^verbatim>\<open>SchemaAnalyzer.analyze_structure\<close> over \<^verbatim>\<open>examples[1:]\<close>. Its body is
  \<^verbatim>\<open>self._merge_structures(base_structure, self._analyze_structure(example))\<close>: Python
  evaluates the callee before the argument, and the class has no attribute
  \<^verbatim>\<open>_merge_structures\<close>, so the first iteration raises before the example is analysed.
\<close>

fun sa_merge_examples :: "json list \<Rightarrow> node \<Rightarrow> error + node" where
  "sa_merge_examples [] base_structure = Inr base_structure"
| "sa_merge_examples (example # rest) base_structure = Inl (AttributeError ''_merge_structures'')"

text \<open>
  \<^verbatim>\<open>SchemaAnalyzer.analyze_structure\<close>. \<open>examples_hash\<close> is the string
  \<^verbatim>\<open>str(hash(str(examples)))\<close> of this call; \<^verbatim>\<open>cache_key or ...\<close> takes it when the key is
  \<^verbatim>\<open>None\<close> or the empty string. The result pairs what the call returns or raises with the
  cache it leaves.
\<close>

definition sa_analyze_structure ::
  "string \<Rightarrow> schema_cache \<Rightarrow> json list \<Rightarrow> string option \<Rightarrow> (error + node) \<times> schema_cache" where
  "sa_analyze_structure examples_hash cache examples cache_key =
    (if examples = [] then (Inr (object_node []), cache)
     else
       (let key = (case cache_key of
                     None \<Rightarrow> examples_hash
                   | Some k \<Rightarrow> if k \<noteq> [] then k else examples_hash)
        in case get_schema cache key of
             Some cached \<Rightarrow> (Inr cached, cache)
           | None \<Rightarrow>
               (case sa_analyze_structure_rec (hd examples) 10 of
                  Inl e \<Rightarrow> (Inl e, cache)
                | Inr base_structure \<Rightarrow>
                    (case sa_merge_examples (tl examples) base_structure of
                       Inl e \<Rightarrow> (Inl e, cache)
                     | Inr merged \<Rightarrow>
                         (let annotated = sa_add_preserved_field_info merged examples
                          in (Inr annotated, set_schema cache key annotated))))))"

section \<open>Value synthesis\<close>

text \<open>
  The random source is the list of the draws still to come; \<^verbatim>\<open>random.choice\<close>,
  \<^verbatim>\<open>random.randint\<close> and \<^verbatim>\<open>round(random.uniform(a, b), 2)\<close> each consume one draw. Every
  call of \<^verbatim>\<open>random.choice\<close> in the generator is on a non-empty list.
\<close>

type_synonym rng = "nat list"

fun next_draw :: "rng \<Rightarrow> nat \<times> rng" where
  "next_draw [] = (0, [])"
| "next_draw (r # g) = (r, g)"

definition random_choice :: "'a list \<Rightarrow> rng \<Rightarrow> 'a \<times> rng" where
  "random_choice xs g = (case next_draw g of (r, g') \<Rightarrow> (xs ! (r mod length xs), g'))"

definition random_randint :: "int \<Rightarrow> int \<Rightarrow> rng \<Rightarrow> int \<times> rng" where
  "random_randint a b g =
     (case next_draw g of (r, g') \<Rightarrow> (a + int (r mod nat (b - a + 1)), g'))"

definition random_uniform_rounded :: "int \<Rightarrow> int \<Rightarrow> rng \<Rightarrow> rat \<times> rng" where
  "random_uniform_rounded a b g =
     (case next_draw g of
        (r, g') \<Rightarrow> (of_int a + of_nat (r mod nat ((b - a) * 100 + 1)) / 100, g'))"

text \<open>
  \<^verbatim>\<open>str.lower\<close>, on the letters \<^verbatim>\<open>A\<close> to \<^verbatim>\<open>Z\<close>; the words it is compared with are
  lower-case ASCII.
\<close>

definition lower :: "string \<Rightarrow> string" where
  "lower s = map (\<lambda>c. if 65 \<le> (of_char c :: nat) \<and> (of_char c :: nat) \<le> 90
                        then char_of ((of_char c :: nat) + 32) else c) s"

definition saving_fields :: "string list" where
  "saving_fields =
    [''sumsaving'', ''summonthchange'', ''accumulatechange'', ''totalsaving'', ''fluentwithdraw'',
     ''expectedforretirement'', ''savingexpectedforretirement'', ''savingsum'', ''fluentsum'']"

text \<open>The four currency strings of the source file, as the UTF-8 bytes of its literals.\<close>

definition currency_signs :: "json list" where
  "currency_signs =
    [JStr [CHR 0xC3, CHR 0xA2, CHR 0xE2, CHR 0x80, CHR 0x9A, CHR 0xC2, CHR 0xAA],
     JStr ''$'',
     JStr [CHR 0xC3, CHR 0xA2, CHR 0xE2, CHR 0x80, CHR 0x9A, CHR 0xC2, CHR 0xAC],
     JStr [CHR 0xC3, CHR 0x82, CHR 0xC2, CHR 0xA3]]"

text \<open>\<^verbatim>\<open>schema.get("original_values", [])\<close> and \<^verbatim>\<open>schema.get("type", "string")\<close>.\<close>

definition get_original_values :: "node \<Rightarrow> json list" where
  "get_original_values s = (case original_values s of None \<Rightarrow> [] | Some vs \<Rightarrow> vs)"

definition get_type :: "node \<Rightarrow> string" where
  "get_type s = (case ntype s of None \<Rightarrow> ''string'' | Some t \<Rightarrow> t)"

text \<open>
  \<^verbatim>\<open>generate_mock_value\<close>, with \<^verbatim>\<open>_generate_mock_array\<close> and \<^verbatim>\<open>_generate_mock_object\<close>
  inlined in their branches: \<open>generate_mock_items\<close> is the list comprehension over
  \<^verbatim>\<open>range(array_length)\<close>, \<open>generate_mock_props\<close> the loop over the properties with
  \<^verbatim>\<open>mock_object\<close> as accumulator. The two fabricating methods \<^verbatim>\<open>_generate_mock_string\<close> and
  \<^verbatim>\<open>_generate_mock_number\<close>, which pick a value from the field name, the Faker instance and
  the random source, are the parameters \<open>mock_string\<close> and \<open>mock_number\<close>. No method of
  the three has a \<^verbatim>\<open>raise\<close> statement and every key is read with \<^verbatim>\<open>.get\<close> and a default,
  so the result carries no error.
\<close>

function generate_mock_value ::
    "(string \<Rightarrow> rng \<Rightarrow> json \<times> rng) \<Rightarrow> (string \<Rightarrow> rng \<Rightarrow> json \<times> rng) \<Rightarrow>
     node \<Rightarrow> string \<Rightarrow> rng \<Rightarrow> json \<times> rng"
  and generate_mock_items ::
    "(string \<Rightarrow> rng \<Rightarrow> json \<times> rng) \<Rightarrow> (string \<Rightarrow> rng \<Rightarrow> json \<times> rng) \<Rightarrow>
     node \<Rightarrow> string \<Rightarrow> nat \<Rightarrow> rng \<Rightarrow> json list \<times> rng"
  and generate_mock_props ::
    "(string \<Rightarrow> rng \<Rightarrow> json \<times> rng) \<Rightarrow> (string \<Rightarrow> rng \<Rightarrow> json \<times> rng) \<Rightarrow>
     (string \<times> node) list \<Rightarrow> string \<Rightarrow> (string \<times> json) list \<Rightarrow> rng \<Rightarrow>
     (string \<times> json) list \<times> rng"
where
  "generate_mock_value mock_string mock_number schema field_name g =
    (if preserve_original schema = Some True \<and> get_original_values schema \<noteq> [] then
       random_choice (get_original_values schema) g
     else if get_type schema = ''string'' then mock_string field_name g
     else if get_type schema = ''number'' then mock_number field_name g
     else if get_type schema = ''boolean'' then random_choice [JBool True, JBool False] g
     else if get_type schema = ''array'' then
       (case random_randint 1 5 g of
          (array_length, g1) \<Rightarrow>
            (case generate_mock_items mock_string mock_number (get_items schema) field_name
                    (nat array_length) g1 of
               (vs, g2) \<Rightarrow> (JArr vs, g2)))
     else if get_type schema = ''object'' then
       (case generate_mock_props mock_string mock_number (get_properties schema) field_name [] g of
          (mock_object, g1) \<Rightarrow> (JObj mock_object, g1))
     else mock_string field_name g)"
| "generate_mock_items mock_string mock_number items_schema field_name 0 g = ([], g)"
| "generate_mock_items mock_string mock_number items_schema field_name (Suc n) g =
    (case generate_mock_value mock_string mock_number items_schema field_name g of
       (v, g1) \<Rightarrow>
         (case generate_mock_items mock_string mock_number items_schema field_name n g1 of
            (vs, g2) \<Rightarrow> (v # vs, g2)))"
| "generate_mock_props mock_string mock_number [] field_name mock_object g = (mock_object, g)"
| "generate_mock_props mock_string mock_number ((prop_name, prop_schema) # rest) field_name
      mock_object g =
    (if preserve_original prop_schema = Some True \<and> get_original_values prop_schema \<noteq> [] then
       (case random_choice (get_original_values prop_schema) g of
          (v, g1) \<Rightarrow>
            generate_mock_props mock_string mock_number rest field_name
              (dict_set prop_name v mock_object) g1)
     else if prop_name = ''value'' \<and> lower field_name \<in> set saving_fields then
       (case random_uniform_rounded 1000 1000000 g of
          (x, g1) \<Rightarrow>
            generate_mock_props mock_string mock_number rest field_name
              (dict_set prop_name (JNum x) mock_object) g1)
     else if prop_name = ''currency'' \<and> lower field_name \<in> set saving_fields then
       (case random_choice currency_signs g of
          (v, g1) \<Rightarrow>
            generate_mock_props mock_string mock_number rest field_name
              (dict_set prop_name v mock_object) g1)
     else if prop_name = ''sign'' \<and> lower field_name \<in> set [''monthchange''] then
       generate_mock_props mock_string mock_number rest field_name
         (dict_set prop_name (JStr ''%'') mock_object) g
     else if prop_name = ''status'' \<and> lower field_name \<in> set [''status''] then
       (case random_randint 0 3 g of
          (i, g1) \<Rightarrow>
            generate_mock_props mock_string mock_number rest field_name
              (dict_set prop_name (JNum (of_int i)) mock_object) g1)
     else if prop_name = ''statusDesc'' \<and> lower field_name \<in> set [''status''] then
       (case random_choice [JStr ''Active'', JStr ''Inactive'', JStr ''Pending'', JStr ''Expired''] g of
          (v, g1) \<Rightarrow>
            generate_mock_props mock_string mock_number rest field_name
              (dict_set prop_name v mock_object) g1)
     else
       (case generate_mock_value mock_string mock_number prop_schema prop_name g of
          (v, g1) \<Rightarrow>
            generate_mock_props mock_string mock_number rest field_name
              (dict_set prop_name v mock_object) g1))"
  by pat_completeness auto

lemma size_get_properties_list:
  "size_list (size_prod (\<lambda>x. 0) size) (get_properties s) < size s"
  by (cases s) (auto simp: get_properties_def split: option.splits)

termination generate_mock_value
  apply (relation "inv_image (less_than <*lex*> less_than <*lex*> less_than)
      (\<lambda>x. case x of
          Inl (ms, mn, schema, f, g) \<Rightarrow>
            (2 * size schema + (if ntype schema = Some ''array'' then 1 else 0), 0, 0)
        | Inr (Inl (ms, mn, items_schema, f, n, g)) \<Rightarrow>
            (2 * size items_schema + (if ntype items_schema = Some ''array'' then 1 else 0), 1, n)
        | Inr (Inr (ms, mn, props, f, acc, g)) \<Rightarrow>
            (2 * size_list (size_prod (\<lambda>x. 0) size) props, 0, 0))")
             apply (rule wf_inv_image, intro wf_lex_prod wf_less_than)
  subgoal for mock_string mock_number schema field_name g
    using size_get_items [of schema] by (auto simp: get_type_def split: option.splits)
  subgoal for mock_string mock_number schema field_name g
    using size_get_properties_list [of schema] by simp
            apply simp_all
  done

declare generate_mock_value.simps [simp del]

section \<open>Properties of the embedding\<close>

subsection \<open>Well-formedness\<close>

lemma well_formed_Node:
  "well_formed (Node t ps it po ov) =
    (if t = Some ''object'' then
       (case ps of None \<Rightarrow> False | Some props \<Rightarrow> list_all (\<lambda>kv. well_formed (snd kv)) props)
     else if t = Some ''array'' then (case it of None \<Rightarrow> False | Some i \<Rightarrow> well_formed i)
     else t \<in> Some ` set kinds)"
  by (subst well_formed.simps) simp

lemma well_formed_leaf [simp]:
  "well_formed (leaf t) = (t \<in> set [''string'', ''number'', ''boolean''])"
  by (auto simp: well_formed_Node leaf_def kinds_def)

lemma well_formed_object_node [simp]:
  "well_formed (object_node ps) = list_all (\<lambda>kv. well_formed (snd kv)) ps"
  by (simp add: well_formed_Node object_node_def)

lemma well_formed_array_node [simp]:
  "well_formed (array_node it) = well_formed it"
  by (simp add: well_formed_Node array_node_def)

lemma well_formed_get_properties:
  "well_formed s \<Longrightarrow> ntype s = Some ''object'' \<Longrightarrow> kv \<in> set (get_properties s) \<Longrightarrow> well_formed (snd kv)"
  by (cases s) (auto simp: well_formed_Node get_properties_def list_all_iff split: option.splits)

lemma well_formed_get_items:
  "well_formed s \<Longrightarrow> ntype s = Some ''array'' \<Longrightarrow> well_formed (get_items s)"
  by (cases s) (auto simp: well_formed_Node get_items_def split: option.splits)

lemma dict_get_in_set: "dict_get d k = Some v \<Longrightarrow> (k, v) \<in> set d"
  by (simp add: dict_get_def map_of_SomeD)

lemma dict_set_all:
  "list_all (\<lambda>kv. P (snd kv)) d \<Longrightarrow> P v \<Longrightarrow> list_all (\<lambda>kv. P (snd kv)) (dict_set k v d)"
  by (induction d) auto

lemma fold_merge_all:
  assumes "list_all (\<lambda>kv. P (snd kv)) acc"
    and "\<And>kv. kv \<in> set xs \<Longrightarrow> P (snd kv)"
    and "\<And>kv old. kv \<in> set xs \<Longrightarrow> P old \<Longrightarrow> P (m old (snd kv))"
  shows "list_all (\<lambda>kv. P (snd kv))
           (fold (\<lambda>kv merged_props.
                    (case dict_get merged_props (fst kv) of
                       Some old \<Rightarrow> dict_set (fst kv) (m old (snd kv)) merged_props
                     | None \<Rightarrow> dict_set (fst kv) (snd kv) merged_props)) xs acc)"
  using assms
proof (induction xs arbitrary: acc)
  case Nil
  then show ?case by simp
next
  case (Cons x xs)
  have "list_all (\<lambda>kv. P (snd kv))
          (case dict_get acc (fst x) of
             Some old \<Rightarrow> dict_set (fst x) (m old (snd x)) acc
           | None \<Rightarrow> dict_set (fst x) (snd x) acc)"
  proof (cases "dict_get acc (fst x)")
    case None
    then show ?thesis using Cons.prems(1) Cons.prems(2) [of x] by (simp add: dict_set_all)
  next
    case (Some old)
    then have "P old" using Cons.prems(1) dict_get_in_set [of acc "fst x" old]
      by (auto simp: list_all_iff)
    then show ?thesis using Some Cons.prems(1) Cons.prems(3) [of x old] by (simp add: dict_set_all)
  qed
  then show ?case using Cons.IH Cons.prems(2,3) by simp
qed

lemma mdg_merge_well_formed:
  "well_formed a \<Longrightarrow> well_formed b \<Longrightarrow> well_formed (mdg_merge_structures a b)"
proof (induction a b rule: mdg_merge_structures.induct)
  case (1 structure1 structure2)
  show ?case
  proof (cases "ntype structure1 \<noteq> ntype structure2")
    case True
    then show ?thesis using 1(3,4) by (simp add: mdg_merge_structures.simps)
  next
    case same: False
    show ?thesis
    proof (cases "ntype structure1 = Some ''object''")
      case True
      have acc: "list_all (\<lambda>kv. well_formed (snd kv)) (get_properties structure1)"
        using 1(3) True well_formed_get_properties [of structure1] by (simp add: list_all_iff)
      have "list_all (\<lambda>kv. well_formed (snd kv))
              (fold (\<lambda>kv merged_props.
                    (case dict_get merged_props (fst kv) of
                       Some old \<Rightarrow> dict_set (fst kv) (mdg_merge_structures old (snd kv)) merged_props
                     | None \<Rightarrow> dict_set (fst kv) (snd kv) merged_props))
                 (get_properties structure2) (get_properties structure1))"
      proof (rule fold_merge_all [OF acc])
        fix kv assume "kv \<in> set (get_properties structure2)"
        then show "well_formed (snd kv)"
          using 1(4) same True well_formed_get_properties [of structure2 kv] by simp
      next
        fix kv old assume kv: "kv \<in> set (get_properties structure2)" and old: "well_formed old"
        have "well_formed (snd kv)"
          using kv 1(4) same True well_formed_get_properties [of structure2 kv] by simp
        then show "well_formed (mdg_merge_structures old (snd kv))"
          using 1(1) [of kv "[(fst kv, old)]" old] same True kv old by (simp add: dict_get_def)
      qed
      then show ?thesis using same True
        by (simp add: mdg_merge_structures.simps [of structure1 structure2])
    next
      case notobj: False
      show ?thesis
      proof (cases "ntype structure1 = Some ''array''")
        case True
        then show ?thesis using same notobj 1(2) 1(3,4)
          by (simp add: mdg_merge_structures.simps [of structure1 structure2] well_formed_get_items)
      next
        case False
        then show ?thesis using same notobj 1(3)
          by (simp add: mdg_merge_structures.simps [of structure1 structure2])
      qed
    qed
  qed
qed
lemma mdg_merge_items_well_formed:
  "list_all well_formed rest \<Longrightarrow> well_formed first \<Longrightarrow> well_formed (mdg_merge_items rest first)"
  by (induction rest arbitrary: first) (auto simp: mdg_merge_well_formed)

lemma mdg_analyze_well_formed_aux:
  "well_formed (mdg_analyze_structure obj d)"
  "list_all (\<lambda>kv. well_formed (snd kv)) props \<Longrightarrow>
     list_all (\<lambda>kv. well_formed (snd kv)) (mdg_analyze_props kvs d props)"
  "list_all well_formed (mdg_analyze_items xs d)"
proof (induction obj d and kvs d props and xs d
    rule: mdg_analyze_structure_mdg_analyze_props_mdg_analyze_items.induct)
  case (1 obj max_depth)
  show ?case
  proof (cases "max_depth \<le> 0")
    case True
    then show ?thesis by simp
  next
    case False
    then show ?thesis using 1
      by (cases obj) (auto simp: mdg_merge_items_well_formed split: list.splits)
  qed
next
  case (2 max_depth props)
  then show ?case by simp
next
  case (3 key val rest max_depth props)
  then show ?case by (simp add: dict_set_all)
next
  case (4 max_depth)
  then show ?case by simp
next
  case (5 item rest max_depth)
  then show ?case by simp
qed

lemma sa_merge_items_Inr: "sa_merge_items rest first = Inr m \<Longrightarrow> rest = [] \<and> m = first"
  by (cases rest) (auto simp: sa_missing_merge_structures_def)

lemma sa_analyze_well_formed_aux:
  "sa_analyze_structure_rec obj d = Inr n \<Longrightarrow> well_formed n"
  "sa_analyze_props kvs d props = Inr props' \<Longrightarrow> list_all (\<lambda>kv. well_formed (snd kv)) props \<Longrightarrow>
     list_all (\<lambda>kv. well_formed (snd kv)) props'"
  "sa_analyze_items xs d = Inr ns \<Longrightarrow> list_all well_formed ns"
proof (induction obj d and kvs d props and xs d arbitrary: n and props' and ns
    rule: sa_analyze_structure_rec_sa_analyze_props_sa_analyze_items.induct)
  case (1 obj max_depth)
  show ?case
  proof (cases "max_depth \<le> 0")
    case True
    then show ?thesis using 1(3) by auto
  next
    case False
    then show ?thesis using 1
      by (cases obj) (fastforce dest!: sa_merge_items_Inr split: list.splits sum.splits if_splits)+
  qed
next
  case (2 max_depth props)
  then show ?case by simp
next
  case (3 key val rest max_depth props)
  then show ?case by (auto simp: dict_set_all split: sum.splits)
next
  case (4 max_depth)
  then show ?case by auto
next
  case (5 item rest max_depth)
  then show ?case by (auto split: sum.splits)
qed

lemma sa_merge_props_all:
  "sa_merge_props xs acc = Inr r \<Longrightarrow> list_all (\<lambda>kv. P (snd kv)) acc \<Longrightarrow>
   list_all (\<lambda>kv. P (snd kv)) xs \<Longrightarrow> list_all (\<lambda>kv. P (snd kv)) r"
proof (induction xs acc rule: sa_merge_props.induct)
  case (1 merged_props)
  then show ?case by simp
next
  case (2 key val rest merged_props)
  then show ?case
    by (cases "dict_get merged_props key")
      (auto simp: sa_missing_merge_structures_def dict_set_all)
qed

lemma sa_merge_well_formed:
  assumes "well_formed a" and "well_formed b" and "sa_merge_structures a b = Inr m"
  shows "well_formed m"
proof (cases "ntype a \<noteq> ntype b")
  case True
  then show ?thesis using assms by (auto simp: sa_merge_structures_def split: if_splits)
next
  case same: False
  show ?thesis
  proof (cases "ntype a = Some ''object''")
    case True
    then obtain r where r: "sa_merge_props (get_properties b) (get_properties a) = Inr r"
      and m: "m = object_node r"
      using assms(3) same by (auto simp: sa_merge_structures_def split: sum.splits)
    have "list_all (\<lambda>kv. well_formed (snd kv)) (get_properties a)"
      using assms(1) True well_formed_get_properties [of a] by (simp add: list_all_iff)
    moreover have "list_all (\<lambda>kv. well_formed (snd kv)) (get_properties b)"
      using assms(2) True same well_formed_get_properties [of b] by (simp add: list_all_iff)
    ultimately show ?thesis using sa_merge_props_all [OF r] m by simp
  next
    case False
    then show ?thesis using assms same
      by (auto simp: sa_merge_structures_def sa_missing_merge_structures_def split: if_splits)
  qed
qed

subsection \<open>Insertion-ordered dicts\<close>

lemma map_of_dict_set: "map_of (dict_set k v d) k' = (if k' = k then Some v else map_of d k')"
  by (induction d) auto

lemma keys_dict_set: "fst ` set (dict_set k v d) = insert k (fst ` set d)"
proof (induction d)
  case Nil
  then show ?case by simp
next
  case (Cons p d)
  obtain k' v' where p: "p = (k', v')" by (cases p)
  show ?case
  proof (cases "k = k'")
    case True
    then show ?thesis by (simp add: p)
  next
    case False
    have "fst ` set (dict_set k v (p # d)) = insert k' (fst ` set (dict_set k v d))"
      using False by (simp add: p)
    then show ?thesis unfolding Cons.IH by (auto simp: p)
  qed
qed

lemma dict_set_same: "distinct (map fst d) \<Longrightarrow> (k, v) \<in> set d \<Longrightarrow> dict_set k v d = d"
  by (induction d) (auto simp: rev_image_eqI)

lemma fold_merge_keys:
  "fst ` set (fold (\<lambda>kv merged_props.
                    (case dict_get merged_props (fst kv) of
                       Some old \<Rightarrow> dict_set (fst kv) (m old (snd kv)) merged_props
                     | None \<Rightarrow> dict_set (fst kv) (snd kv) merged_props)) xs acc)
   = fst ` set acc \<union> fst ` set xs"
proof (induction xs arbitrary: acc)
  case Nil
  then show ?case by simp
next
  case (Cons x xs)
  show ?case by (cases "dict_get acc (fst x)") (auto simp: Cons.IH keys_dict_set)
qed

lemma fold_merge_map_of:
  "distinct (map fst xs) \<Longrightarrow>
   map_of (fold (\<lambda>kv merged_props.
                    (case dict_get merged_props (fst kv) of
                       Some old \<Rightarrow> dict_set (fst kv) (m old (snd kv)) merged_props
                     | None \<Rightarrow> dict_set (fst kv) (snd kv) merged_props)) xs acc) k
   = (case map_of acc k of
        Some a \<Rightarrow> (case map_of xs k of Some b \<Rightarrow> Some (m a b) | None \<Rightarrow> Some a)
      | None \<Rightarrow> map_of xs k)"
proof (induction xs arbitrary: acc)
  case Nil
  then show ?case by (simp split: option.splits)
next
  case (Cons x xs)
  let ?f = "\<lambda>kv merged_props.
                    (case dict_get merged_props (fst kv) of
                       Some old \<Rightarrow> dict_set (fst kv) (m old (snd kv)) merged_props
                     | None \<Rightarrow> dict_set (fst kv) (snd kv) merged_props)"
  have none: "map_of xs (fst x) = None" using Cons.prems by (simp add: map_of_eq_None_iff)
  have d: "distinct (map fst xs)" using Cons.prems by simp
  have step: "map_of (?f x acc) k =
      (if k = fst x then (case map_of acc k of Some a \<Rightarrow> Some (m a (snd x)) | None \<Rightarrow> Some (snd x))
       else map_of acc k)"
    by (cases "map_of acc (fst x)") (simp_all add: dict_get_def map_of_dict_set)
  have "map_of (fold ?f (x # xs) acc) k = map_of (fold ?f xs (?f x acc)) k" by simp
  also have "\<dots> = (case map_of (?f x acc) k of
        Some a \<Rightarrow> (case map_of xs k of Some b \<Rightarrow> Some (m a b) | None \<Rightarrow> Some a)
      | None \<Rightarrow> map_of xs k)"
    by (rule Cons.IH [OF d])
  also have "\<dots> = (case map_of acc k of
        Some a \<Rightarrow> (case map_of (x # xs) k of Some b \<Rightarrow> Some (m a b) | None \<Rightarrow> Some a)
      | None \<Rightarrow> map_of (x # xs) k)"
    unfolding step using none by (cases x) (auto split: option.splits)
  finally show ?case .
qed

lemma fold_merge_same:
  assumes "distinct (map fst acc)" and "set xs \<subseteq> set acc"
    and "\<And>kv. kv \<in> set xs \<Longrightarrow> m (snd kv) (snd kv) = snd kv"
  shows "fold (\<lambda>kv merged_props.
                    (case dict_get merged_props (fst kv) of
                       Some old \<Rightarrow> dict_set (fst kv) (m old (snd kv)) merged_props
                     | None \<Rightarrow> dict_set (fst kv) (snd kv) merged_props)) xs acc = acc"
  using assms(2,3)
proof (induction xs)
  case Nil
  then show ?case by simp
next
  case (Cons x xs)
  have mem: "(fst x, snd x) \<in> set acc" using Cons.prems(1) by simp
  then have get: "dict_get acc (fst x) = Some (snd x)"
    using assms(1) by (simp add: dict_get_def)
  have "dict_set (fst x) (m (snd x) (snd x)) acc = acc"
    using Cons.prems(2) [of x] dict_set_same [OF assms(1) mem] by simp
  then show ?case using get Cons by simp
qed

subsection \<open>Self-merge\<close>

lemma plain_schema_Node:
  "plain_schema (Node t ps it po ov) =
    (if t = Some ''object'' then
       it = None \<and> po = None \<and> ov = None \<and>
       (case ps of
          None \<Rightarrow> False
        | Some props \<Rightarrow> distinct (map fst props) \<and> list_all (\<lambda>kv. plain_schema (snd kv)) props)
     else if t = Some ''array'' then
       ps = None \<and> po = None \<and> ov = None \<and>
       (case it of None \<Rightarrow> False | Some i \<Rightarrow> plain_schema i)
     else True)"
  by (subst plain_schema.simps) simp

lemma plain_schema_object:
  "plain_schema s \<Longrightarrow> ntype s = Some ''object'' \<Longrightarrow>
   s = object_node (get_properties s) \<and> distinct (map fst (get_properties s))
   \<and> (\<forall>kv \<in> set (get_properties s). plain_schema (snd kv))"
  by (cases s)
    (auto simp: plain_schema_Node object_node_def get_properties_def list_all_iff
      split: option.splits)

lemma plain_schema_array:
  "plain_schema s \<Longrightarrow> ntype s = Some ''array'' \<Longrightarrow>
   s = array_node (get_items s) \<and> plain_schema (get_items s)"
  by (cases s)
    (auto simp: plain_schema_Node array_node_def get_items_def split: option.splits)

lemma size_get_items_plain:
  "plain_schema s \<Longrightarrow> ntype s = Some ''array'' \<Longrightarrow> size (get_items s) < size s"
  by (cases s)
    (auto simp: plain_schema_Node get_items_def split: option.splits)

lemma mdg_merge_self: "plain_schema x \<Longrightarrow> mdg_merge_structures x x = x"
proof (induction x rule: measure_induct_rule [where f = size])
  case (less x)
  show ?case
  proof (cases "ntype x = Some ''object''")
    case True
    note obj = plain_schema_object [OF less.prems True]
    have "fold (\<lambda>kv merged_props.
                    (case dict_get merged_props (fst kv) of
                       Some old \<Rightarrow> dict_set (fst kv) (mdg_merge_structures old (snd kv)) merged_props
                     | None \<Rightarrow> dict_set (fst kv) (snd kv) merged_props))
            (get_properties x) (get_properties x) = get_properties x"
    proof (rule fold_merge_same)
      show "distinct (map fst (get_properties x))" using obj by simp
      show "set (get_properties x) \<subseteq> set (get_properties x)" by simp
      fix kv assume kv: "kv \<in> set (get_properties x)"
      then have "size (snd kv) < size x" by (rule size_get_properties)
      moreover have "plain_schema (snd kv)" using obj kv by simp
      ultimately show "mdg_merge_structures (snd kv) (snd kv) = snd kv" by (rule less.IH)
    qed
    then show ?thesis using True obj by (simp add: mdg_merge_structures.simps [of x x])
  next
    case notobj: False
    show ?thesis
    proof (cases "ntype x = Some ''array''")
      case True
      note arr = plain_schema_array [OF less.prems True]
      have "mdg_merge_structures (get_items x) (get_items x) = get_items x"
        using less.IH [of "get_items x"] arr size_get_items_plain [OF less.prems True] by simp
      then show ?thesis using True arr by (simp add: mdg_merge_structures.simps [of x x])
    next
      case False
      then show ?thesis using notobj by (simp add: mdg_merge_structures.simps [of x x])
    qed
  qed
qed

lemma sa_merge_props_shared:
  "dict_get merged_props (fst (hd props)) \<noteq> None \<Longrightarrow> props \<noteq> [] \<Longrightarrow>
   sa_merge_props props merged_props = Inl (AttributeError ''_merge_structures'')"
  by (cases props) (auto simp: sa_missing_merge_structures_def)

lemma sa_merge_self:
  assumes "plain_schema x"
  shows "sa_merge_structures x x =
    (if ntype x = Some ''array'' \<or> (ntype x = Some ''object'' \<and> get_properties x \<noteq> [])
     then Inl (AttributeError ''_merge_structures'') else Inr x)"
proof (cases "ntype x = Some ''object''")
  case True
  note obj = plain_schema_object [OF assms True]
  show ?thesis
  proof (cases "get_properties x")
    case Nil
    then show ?thesis using True obj by (simp add: sa_merge_structures_def)
  next
    case (Cons p ps)
    then have "sa_merge_props (get_properties x) (get_properties x)
        = Inl (AttributeError ''_merge_structures'')"
      by (cases p) (simp add: dict_get_def sa_missing_merge_structures_def)
    then show ?thesis using True Cons by (simp add: sa_merge_structures_def)
  qed
next
  case False
  then show ?thesis using plain_schema_array [OF assms]
    by (auto simp: sa_merge_structures_def sa_missing_merge_structures_def)
qed

subsection \<open>Preserved fields\<close>

lemma py_in_append: "py_in w (acc @ [v]) = (py_in w acc \<or> py_eq w v)"
  by (auto simp: py_in_def list_ex_iff)

lemma extract_values_loop_spec:
  "extract_values_loop field_name examples acc =
     acc @ spec_dedup_first (filter (\<lambda>v. \<not> py_in v acc) (spec_field_values field_name examples))"
proof (induction examples arbitrary: acc)
  case Nil
  then show ?case by (simp add: spec_field_values_def)
next
  case (Cons example rest)
  show ?case
  proof (cases "\<exists>d v. example = JObj d \<and> dict_get d field_name = Some v")
    case True
    then obtain d v where ex: "example = JObj d" "dict_get d field_name = Some v" by blast
    have sfv: "spec_field_values field_name (example # rest) = v # spec_field_values field_name rest"
      using ex by (simp add: spec_field_values_def)
    show ?thesis
    proof (cases "py_in v acc")
      case True
      then show ?thesis using ex sfv Cons.IH [of acc] by simp
    next
      case False
      have "filter (\<lambda>w. \<not> py_in w (acc @ [v])) (spec_field_values field_name rest)
          = filter (\<lambda>w. \<not> py_eq w v) (filter (\<lambda>w. \<not> py_in w acc) (spec_field_values field_name rest))"
        by (auto simp: py_in_append intro: filter_cong)
      then show ?thesis using False ex sfv Cons.IH [of "acc @ [v]"] by simp
    qed
  next
    case False
    then have sfv: "spec_field_values field_name (example # rest) = spec_field_values field_name rest"
      by (cases example) (auto simp: spec_field_values_def split: option.splits)
    have "extract_values_loop field_name (example # rest) acc = extract_values_loop field_name rest acc"
      using False by (cases example) (auto split: option.splits)
    then show ?thesis using sfv Cons.IH [of acc] by simp
  qed
qed

lemma extract_original_values_spec:
  "extract_original_values field_name examples = spec_dedup_first (spec_field_values field_name examples)"
  by (simp add: extract_original_values_def extract_values_loop_spec py_in_def)

lemma spec_dedup_first_subset: "set (spec_dedup_first xs) \<subseteq> set xs"
  by (induction xs rule: spec_dedup_first.induct) auto

lemma spec_dedup_first_no_duplicates: "sorted_wrt (\<lambda>v w. \<not> py_eq w v) (spec_dedup_first xs)"
proof (induction xs rule: spec_dedup_first.induct)
  case 1
  then show ?case by simp
next
  case (2 v vs)
  then show ?case using spec_dedup_first_subset [of "filter (\<lambda>w. \<not> py_eq w v) vs"] by auto
qed

lemma mark_preserved_fields [simp]:
  "ntype (mark_preserved preserve field_name examples s) = ntype s"
  "properties (mark_preserved preserve field_name examples s) = properties s"
  "items (mark_preserved preserve field_name examples s) = items s"
  by (simp_all add: mark_preserved_def set_preserve_original_def set_original_values_def Let_def)

lemma mark_preserved_flags:
  "preserve field_name \<Longrightarrow>
   preserve_original (mark_preserved preserve field_name examples s) = Some True
   \<and> original_values (mark_preserved preserve field_name examples s) =
       (if extract_original_values field_name examples = [] then original_values s
        else Some (extract_original_values field_name examples))"
  by (simp add: mark_preserved_def set_preserve_original_def set_original_values_def Let_def)

lemma add_preserved_field_info_root:
  "ntype (add_preserved_field_info preserve s examples) = ntype s"
  "preserve_original (add_preserved_field_info preserve s examples) = preserve_original s"
  "original_values (add_preserved_field_info preserve s examples) = original_values s"
  by (simp_all add: add_preserved_field_info.simps [of preserve s examples] set_properties_def
      set_items_def split: option.splits)

lemma dict_get_map:
  "dict_get props k = Some v \<Longrightarrow> dict_get (map (\<lambda>kv. (fst kv, f kv)) props) k = Some (f (k, v))"
  by (induction props) (auto simp: dict_get_def split: if_splits)

lemma add_preserved_field_info_child:
  assumes "ntype s = Some ''object''" and "properties s = Some props"
    and "dict_get props field_name = Some child"
  shows "dict_get (get_properties (add_preserved_field_info preserve s examples)) field_name =
    Some (let field_structure = mark_preserved preserve field_name examples child in
          if ntype field_structure = Some ''object'' then
            (if nested_examples field_name examples \<noteq> [] then
               add_preserved_field_info preserve field_structure (nested_examples field_name examples)
             else field_structure)
          else if ntype field_structure = Some ''array'' then
            (if array_examples field_name examples \<noteq> [] then
               (case items field_structure of
                  None \<Rightarrow> field_structure
                | Some items_structure \<Rightarrow>
                    set_items field_structure
                      (add_preserved_field_info preserve items_structure
                         (array_examples field_name examples)))
             else field_structure)
          else field_structure)"
proof -
  let ?F = "\<lambda>kv. (let field_structure = mark_preserved preserve (fst kv) examples (snd kv) in
                   if ntype field_structure = Some ''object'' then
                     (if nested_examples (fst kv) examples \<noteq> [] then
                        add_preserved_field_info preserve field_structure
                          (nested_examples (fst kv) examples)
                      else field_structure)
                   else if ntype field_structure = Some ''array'' then
                     (if array_examples (fst kv) examples \<noteq> [] then
                        (case items field_structure of
                           None \<Rightarrow> field_structure
                         | Some items_structure \<Rightarrow>
                             set_items field_structure
                               (add_preserved_field_info preserve items_structure
                                  (array_examples (fst kv) examples)))
                      else field_structure)
                   else field_structure)"
  have "add_preserved_field_info preserve s examples
      = set_properties s (map (\<lambda>kv. (fst kv, ?F kv)) props)"
    by (subst add_preserved_field_info.simps) (simp only: assms if_True option.case simp_thms)
  then have "get_properties (add_preserved_field_info preserve s examples)
      = map (\<lambda>kv. (fst kv, ?F kv)) props"
    by (simp only: get_properties_def set_properties_def node.sel option.case)
  then show ?thesis
    using dict_get_map [OF assms(3), of ?F] by (simp only: fst_conv snd_conv)
qed

lemma add_preserved_field_info_child_flags:
  assumes "ntype s = Some ''object''" and "properties s = Some props"
    and "dict_get props field_name = Some child"
  shows "map_option preserve_original
           (dict_get (get_properties (add_preserved_field_info preserve s examples)) field_name)
         = Some (preserve_original (mark_preserved preserve field_name examples child))"
    and "map_option original_values
           (dict_get (get_properties (add_preserved_field_info preserve s examples)) field_name)
         = Some (original_values (mark_preserved preserve field_name examples child))"
  unfolding add_preserved_field_info_child [OF assms]
  by (simp_all add: Let_def add_preserved_field_info_root set_items_def split: option.splits)

subsection \<open>Cache\<close>

lemma get_set_schema: "get_schema (set_schema cache key schema) key = Some schema"
  by (simp add: get_schema_def set_schema_def dict_get_def map_of_dict_set)

lemma sa_analyze_structure_hit:
  "examples \<noteq> [] \<Longrightarrow> key \<noteq> [] \<Longrightarrow> get_schema cache key = Some n \<Longrightarrow>
   sa_analyze_structure examples_hash cache examples (Some key) = (Inr n, cache)"
  by (simp add: sa_analyze_structure_def)

lemma sa_analyze_structure_stores:
  "examples \<noteq> [] \<Longrightarrow> key \<noteq> [] \<Longrightarrow>
   sa_analyze_structure examples_hash cache examples (Some key) = (Inr n, cache') \<Longrightarrow>
   get_schema cache' key = Some n"
  by (auto simp: sa_analyze_structure_def Let_def get_set_schema split: option.splits sum.splits)

lemma sa_analyze_error_aux:
  "sa_analyze_structure_rec obj d = Inl e \<Longrightarrow> e = AttributeError ''_merge_structures''"
  "sa_analyze_props kvs d props = Inl e \<Longrightarrow> e = AttributeError ''_merge_structures''"
  "sa_analyze_items xs d = Inl e \<Longrightarrow> e = AttributeError ''_merge_structures''"
proof (induction obj d and kvs d props and xs d arbitrary: e and e and e
    rule: sa_analyze_structure_rec_sa_analyze_props_sa_analyze_items.induct)
  case (1 obj max_depth)
  have merge: "sa_merge_items rest first = Inl e' \<Longrightarrow> e' = AttributeError ''_merge_structures''"
    for rest first e'
    by (cases rest) (auto simp: sa_missing_merge_structures_def)
  show ?case
  proof (cases "max_depth \<le> 0")
    case True
    then show ?thesis using 1(3) by auto
  next
    case False
    then show ?thesis using 1
      by (cases obj) (fastforce dest!: merge split: list.splits sum.splits if_splits)+
  qed
next
  case (2 max_depth props)
  then show ?case by simp
next
  case (3 key val rest max_depth props)
  then show ?case by (auto split: sum.splits)
next
  case (4 max_depth)
  then show ?case by auto
next
  case (5 item rest max_depth)
  then show ?case by (auto split: sum.splits)
qed

lemma sa_analyze_structure_many_raises:
  assumes "tl examples \<noteq> []" and "key \<noteq> []" and "get_schema cache key = None"
  shows "sa_analyze_structure examples_hash cache examples (Some key)
         = (Inl (AttributeError ''_merge_structures''), cache)"
proof -
  obtain x y rest where ex: "examples = x # y # rest"
    using assms(1) by (cases examples; cases "tl examples") auto
  show ?thesis
  proof (cases "sa_analyze_structure_rec x 10")
    case (Inl e)
    then show ?thesis using assms(2,3) ex sa_analyze_error_aux(1) [OF Inl]
      by (simp add: sa_analyze_structure_def)
  next
    case (Inr b)
    then show ?thesis using assms(2,3) ex by (simp add: sa_analyze_structure_def)
  qed
qed

section \<open>Kind dispatch and tie-break\<close>

text \<open>
  C1 (defect). The claim: analyse and merge never raise on well-formed input, lists of two
  or more elements included. In class \<^verbatim>\<open>SchemaAnalyzer\<close> the two-element list
  \<^verbatim>\<open>[1, 2]\<close> makes \<^verbatim>\<open>_analyze_structure\<close> raise \<^verbatim>\<open>AttributeError\<close>, and so does
  \<^verbatim>\<open>merge_structures\<close> on two array schemas, while \<^verbatim>\<open>MockDataGenerator\<close>, whose
  method is named as it is called, returns the array schema.
\<close>

theorem sa_analyze_two_element_list_raises:
  "sa_analyze_structure_rec (JArr [JNum 1, JNum 2]) 10 = Inl (AttributeError ''_merge_structures'')
   \<and> sa_merge_structures (array_node (leaf ''number'')) (array_node (leaf ''number''))
        = Inl (AttributeError ''_merge_structures'')
   \<and> mdg_analyze_structure (JArr [JNum 1, JNum 2]) 10 = array_node (leaf ''number'')"
  by (simp add: sa_missing_merge_structures_def sa_merge_structures_def array_node_def
      leaf_def mdg_merge_structures.simps)

text \<open>
  C2 (as stated, refuted). The claim: analysing null yields a Null leaf, never a String
  node. Both analysers send \<^verbatim>\<open>None\<close> to the final \<^verbatim>\<open>else\<close>, which returns the
  string schema.
\<close>

theorem analyze_null_is_string_counterexample:
  "ntype (mdg_analyze_structure JNull 10) = Some ''string''
   \<and> sa_analyze_structure_rec JNull 10 = Inr (leaf ''string'')"
  by (simp add: leaf_def)

text \<open>
  C2 (amended). For every depth budget, analysing null yields the String leaf, in both
  classes; and whatever the value analysed, every node of the tree an analyser returns
  carries one of the five tags \<^verbatim>\<open>object\<close>, \<^verbatim>\<open>array\<close>, \<^verbatim>\<open>string\<close>, \<^verbatim>\<open>number\<close>,
  \<^verbatim>\<open>boolean\<close>, so that no node of a null kind is produced for any input.
\<close>

theorem analyze_null_is_string:
  "mdg_analyze_structure JNull max_depth = leaf ''string''
   \<and> sa_analyze_structure_rec JNull max_depth = Inr (leaf ''string'')
   \<and> well_formed (mdg_analyze_structure obj depth)
   \<and> (\<forall>n. sa_analyze_structure_rec obj depth = Inr n \<longrightarrow> well_formed n)"
  using mdg_analyze_well_formed_aux(1) [of obj depth] sa_analyze_well_formed_aux(1) [of obj depth]
  by simp

theorem analyze_null_is_string_witness:
  "mdg_analyze_structure JNull 3 = leaf ''string''
   \<and> sa_analyze_structure_rec JNull 3 = Inr (leaf ''string'')
   \<and> well_formed (mdg_analyze_structure (JArr [JNull, JStr ''x'']) 3)
   \<and> sa_analyze_structure_rec (JObj [(''a'', JNull)]) 3 = Inr (object_node [(''a'', leaf ''string'')])
   \<and> well_formed (object_node [(''a'', leaf ''string'')])"
  using analyze_null_is_string [of 3 "JArr [JNull, JStr ''x'']" 3]
    analyze_null_is_string [of 3 "JObj [(''a'', JNull)]" 3]
  by simp

text \<open>
  C4. When the two kinds differ, merge returns the operand that is not a string schema: the
  right one when the left is a string, the left one otherwise (so the left one wins when
  neither is a string). Both classes agree on this branch.
\<close>

theorem merge_kind_mismatch:
  assumes "ntype a \<noteq> ntype b"
  shows "mdg_merge_structures a b = (if ntype a = Some ''string'' then b else a)
         \<and> sa_merge_structures a b = Inr (if ntype a = Some ''string'' then b else a)"
  using assms by (simp add: mdg_merge_structures.simps sa_merge_structures_def)

theorem merge_kind_mismatch_witness:
  "ntype (leaf ''string'') \<noteq> ntype (object_node [])
   \<and> mdg_merge_structures (leaf ''string'') (object_node []) = object_node []
   \<and> sa_merge_structures (leaf ''number'') (leaf ''boolean'') = Inr (leaf ''number'')"
  using merge_kind_mismatch [of "leaf ''string''" "object_node []"]
    merge_kind_mismatch [of "leaf ''number''" "leaf ''boolean''"]
  by (simp add: leaf_def object_node_def)

section \<open>Synthesis from a schema that lacks a key\<close>




section \<open>Merging objects\<close>

text \<open>
  C5. For two \<^verbatim>\<open>object\<close> nodes, \<^verbatim>\<open>MockDataGenerator._merge_structures\<close> returns an
  \<^verbatim>\<open>object\<close> node whose property names are those of the left node together with those of
  the right node; a name on both sides maps to the merge of the two children, a name on one
  side only to that side's child. The property names of the right node are pairwise distinct,
  as the keys of a dict are.
\<close>

theorem merge_objects_union:
  assumes "ntype a = Some ''object''" and "ntype b = Some ''object''"
    and "distinct (map fst (get_properties b))"
  shows "mdg_merge_structures a b = object_node (get_properties (mdg_merge_structures a b))
    \<and> set (map fst (get_properties (mdg_merge_structures a b)))
        = set (map fst (get_properties a)) \<union> set (map fst (get_properties b))
    \<and> (\<forall>k. dict_get (get_properties (mdg_merge_structures a b)) k =
          (case dict_get (get_properties a) k of
             Some x \<Rightarrow>
               (case dict_get (get_properties b) k of
                  Some y \<Rightarrow> Some (mdg_merge_structures x y)
                | None \<Rightarrow> Some x)
           | None \<Rightarrow> dict_get (get_properties b) k))"
proof -
  let ?ps = "fold (\<lambda>kv merged_props.
                  (case dict_get merged_props (fst kv) of
                     Some old \<Rightarrow> dict_set (fst kv) (mdg_merge_structures old (snd kv)) merged_props
                   | None \<Rightarrow> dict_set (fst kv) (snd kv) merged_props))
               (get_properties b) (get_properties a)"
  have m: "mdg_merge_structures a b = object_node ?ps"
    using assms(1,2) by (simp add: mdg_merge_structures.simps [of a b])
  have ps: "get_properties (mdg_merge_structures a b) = ?ps"
    unfolding m by (simp add: get_properties_def object_node_def)
  have "mdg_merge_structures a b = object_node (get_properties (mdg_merge_structures a b))"
    unfolding ps by (rule m)
  moreover have "set (map fst (get_properties (mdg_merge_structures a b)))
        = set (map fst (get_properties a)) \<union> set (map fst (get_properties b))"
    unfolding ps using fold_merge_keys [of mdg_merge_structures "get_properties b" "get_properties a"]
    by simp
  moreover have "dict_get (get_properties (mdg_merge_structures a b)) k =
          (case dict_get (get_properties a) k of
             Some x \<Rightarrow>
               (case dict_get (get_properties b) k of
                  Some y \<Rightarrow> Some (mdg_merge_structures x y)
                | None \<Rightarrow> Some x)
           | None \<Rightarrow> dict_get (get_properties b) k)" for k
    unfolding ps dict_get_def [of _ k]
    by (rule fold_merge_map_of [OF assms(3)])
  ultimately show ?thesis by blast
qed

theorem merge_objects_union_witness:
  "ntype (mdg_analyze_structure (JObj [(''a'', JNum 1)]) 10) = Some ''object''
   \<and> ntype (mdg_analyze_structure (JObj [(''b'', JStr ''x'')]) 10) = Some ''object''
   \<and> distinct (map fst (get_properties (mdg_analyze_structure (JObj [(''b'', JStr ''x'')]) 10)))
   \<and> mdg_merge_structures (mdg_analyze_structure (JObj [(''a'', JNum 1)]) 10)
        (mdg_analyze_structure (JObj [(''b'', JStr ''x'')]) 10)
      = object_node [(''a'', leaf ''number''), (''b'', leaf ''string'')]"
  using merge_objects_union [of "mdg_analyze_structure (JObj [(''a'', JNum 1)]) 10"
      "mdg_analyze_structure (JObj [(''b'', JStr ''x'')]) 10"]
  by (simp add: mdg_merge_structures.simps object_node_def leaf_def get_properties_def
      dict_get_def)

section \<open>Self-merge\<close>

text \<open>
  C6 (defect). The claim: \<^verbatim>\<open>merge(x, x)\<close> equals \<^verbatim>\<open>x\<close>. On every schema built from the
  dict literals of the analysers and mergers, \<^verbatim>\<open>MockDataGenerator._merge_structures\<close>
  returns \<^verbatim>\<open>x\<close> itself, whereas \<^verbatim>\<open>SchemaAnalyzer.merge_structures\<close> raises
  \<^verbatim>\<open>AttributeError\<close> as soon as \<^verbatim>\<open>x\<close> is an array or an object with a property, through the
  call of the undefined \<^verbatim>\<open>_merge_structures\<close> of C1, and returns \<^verbatim>\<open>x\<close> otherwise.
\<close>

theorem merge_self:
  assumes "plain_schema x"
  shows "mdg_merge_structures x x = x
    \<and> sa_merge_structures x x =
        (if ntype x = Some ''array'' \<or> (ntype x = Some ''object'' \<and> get_properties x \<noteq> [])
         then Inl (AttributeError ''_merge_structures'') else Inr x)"
  using assms mdg_merge_self [of x] sa_merge_self [of x] by simp

theorem merge_self_witness:
  "plain_schema (object_node [(''a'', array_node (leaf ''number''))])
   \<and> mdg_merge_structures (object_node [(''a'', array_node (leaf ''number''))])
        (object_node [(''a'', array_node (leaf ''number''))])
      = object_node [(''a'', array_node (leaf ''number''))]
   \<and> sa_merge_structures (object_node [(''a'', array_node (leaf ''number''))])
        (object_node [(''a'', array_node (leaf ''number''))])
      = Inl (AttributeError ''_merge_structures'')"
  using merge_self [of "object_node [(''a'', array_node (leaf ''number''))]"]
  by (simp add: plain_schema_Node object_node_def array_node_def leaf_def get_properties_def)

section \<open>Preservation annotations\<close>





section \<open>Cache\<close>

text \<open>
  C9 (defect). The claim: for every non-empty corpus and key, a second call with the same key
  returns the node the first call stored, without recomputing, also when the second corpus
  differs. In \<^verbatim>\<open>SchemaAnalyzer.analyze_structure\<close> this holds whenever the first call
  returns a node. A first call on a corpus of two or more examples under a key the cache does
  not hold returns no node and stores none: it raises \<^verbatim>\<open>AttributeError\<close> at the undefined
  \<^verbatim>\<open>_merge_structures\<close> of C1, and the cache stays as it was, so that every later call
  recomputes.
\<close>

theorem analyze_structure_cache:
  assumes "examples1 \<noteq> []" and "examples2 \<noteq> []" and "key \<noteq> []"
  shows "(\<forall>n cache'. sa_analyze_structure hash1 cache examples1 (Some key) = (Inr n, cache') \<longrightarrow>
            sa_analyze_structure hash2 cache' examples2 (Some key) = (Inr n, cache'))
    \<and> (tl examples1 \<noteq> [] \<and> get_schema cache key = None \<longrightarrow>
         sa_analyze_structure hash1 cache examples1 (Some key)
           = (Inl (AttributeError ''_merge_structures''), cache))"
  using assms sa_analyze_structure_stores [of examples1 key hash1 cache]
    sa_analyze_structure_hit [of examples2 key _ _ hash2]
    sa_analyze_structure_many_raises [of examples1 key cache hash1]
  by blast

theorem analyze_structure_cache_witness:
  "[JObj [(''a'', JNum 1)]] \<noteq> [] \<and> [JObj [(''b'', JStr ''x'')], JObj [(''c'', JNull)]] \<noteq> []
   \<and> ''k'' \<noteq> []
   \<and> sa_analyze_structure ''h1'' [] [JObj [(''a'', JNum 1)]] (Some ''k'')
      = (Inr (object_node [(''a'', leaf ''number'')]), [(''k'', object_node [(''a'', leaf ''number'')])])
   \<and> sa_analyze_structure ''h2'' [(''k'', object_node [(''a'', leaf ''number'')])]
        [JObj [(''b'', JStr ''x'')], JObj [(''c'', JNull)]] (Some ''k'')
      = (Inr (object_node [(''a'', leaf ''number'')]), [(''k'', object_node [(''a'', leaf ''number'')])])
   \<and> tl [JObj [(''b'', JStr ''x'')], JObj [(''c'', JNull)]] \<noteq> [] \<and> get_schema [] ''k'' = None
   \<and> sa_analyze_structure ''h2'' [] [JObj [(''b'', JStr ''x'')], JObj [(''c'', JNull)]] (Some ''k'')
      = (Inl (AttributeError ''_merge_structures''), [])"
  using analyze_structure_cache [of "[JObj [(''a'', JNum 1)]]"
      "[JObj [(''b'', JStr ''x'')], JObj [(''c'', JNull)]]" "''k''" "''h1''" "[]" "''h2''"]
    analyze_structure_cache [of "[JObj [(''b'', JStr ''x'')], JObj [(''c'', JNull)]]"
      "[JObj [(''a'', JNum 1)]]" "''k''" "''h2''" "[]" "''h1''"]
  by (simp add: sa_analyze_structure_def get_schema_def set_schema_def dict_get_def
      sa_add_preserved_field_info_def add_preserved_field_info.simps object_node_def leaf_def
      set_properties_def mark_preserved_def should_preserve_field_def preserve_fields_def Let_def)

section \<open>Well-formedness is an invariant of analysis and merge\<close>

text \<open>
  C10. Every node an analyser returns is well formed, and both mergers return a well-formed
  node on well-formed operands: the tag is one of the five, an \<^verbatim>\<open>object\<close> node carries
  \<^verbatim>\<open>properties\<close> with well-formed values, an \<^verbatim>\<open>array\<close> node carries well-formed
  \<^verbatim>\<open>items\<close>. The last conjunct spells out what well-formedness gives at the root, which is
  what the generator's dispatch reads.
\<close>

theorem analysis_and_merge_well_formed:
  "(\<forall>n. sa_analyze_structure_rec obj max_depth = Inr n \<longrightarrow> well_formed n)
   \<and> well_formed (mdg_analyze_structure obj max_depth)
   \<and> (well_formed a \<and> well_formed b \<longrightarrow>
        well_formed (mdg_merge_structures a b)
        \<and> (\<forall>m. sa_merge_structures a b = Inr m \<longrightarrow> well_formed m))
   \<and> (well_formed s \<longrightarrow>
        ntype s \<in> Some ` set kinds
        \<and> (ntype s = Some ''object'' \<longrightarrow>
             (\<exists>props. properties s = Some props \<and> list_all (\<lambda>kv. well_formed (snd kv)) props))
        \<and> (ntype s = Some ''array'' \<longrightarrow> (\<exists>it. items s = Some it \<and> well_formed it)))"
proof -
  have "well_formed s \<Longrightarrow> ntype s \<in> Some ` set kinds"
    by (cases s) (auto simp: well_formed_Node kinds_def split: if_splits)
  moreover have "well_formed s \<Longrightarrow> ntype s = Some ''object'' \<Longrightarrow>
      \<exists>props. properties s = Some props \<and> list_all (\<lambda>kv. well_formed (snd kv)) props"
    by (cases s) (auto simp: well_formed_Node split: option.splits)
  moreover have "well_formed s \<Longrightarrow> ntype s = Some ''array'' \<Longrightarrow>
      \<exists>it. items s = Some it \<and> well_formed it"
    by (cases s) (auto simp: well_formed_Node split: option.splits)
  ultimately show ?thesis
    using sa_analyze_well_formed_aux(1) [of obj max_depth] mdg_analyze_well_formed_aux(1) [of obj max_depth]
      mdg_merge_well_formed [of a b] sa_merge_well_formed [of a b]
    by blast
qed

theorem analysis_and_merge_well_formed_witness:
  "sa_analyze_structure_rec (JObj [(''a'', JArr [JNum 1])]) 10
      = Inr (object_node [(''a'', array_node (leaf ''number''))])
   \<and> well_formed (object_node [(''a'', array_node (leaf ''number''))])
   \<and> well_formed (mdg_analyze_structure (JObj [(''a'', JArr [JNum 1])]) 10)
   \<and> well_formed (object_node [(''a'', leaf ''number'')]) \<and> well_formed (object_node [(''b'', leaf ''string'')])
   \<and> well_formed (mdg_merge_structures (object_node [(''a'', leaf ''number'')]) (object_node [(''b'', leaf ''string'')]))
   \<and> sa_merge_structures (object_node [(''a'', leaf ''number'')]) (object_node [(''b'', leaf ''string'')])
      = Inr (object_node [(''a'', leaf ''number''), (''b'', leaf ''string'')])
   \<and> well_formed (object_node [(''a'', leaf ''number''), (''b'', leaf ''string'')])
   \<and> properties (object_node [(''a'', leaf ''number''), (''b'', leaf ''string'')])
      = Some [(''a'', leaf ''number''), (''b'', leaf ''string'')]"
  using analysis_and_merge_well_formed [of "JObj [(''a'', JArr [JNum 1])]" 10
      "object_node [(''a'', leaf ''number'')]" "object_node [(''b'', leaf ''string'')]"
      "object_node [(''a'', leaf ''number''), (''b'', leaf ''string'')]"]
  by (simp add: sa_merge_structures_def mdg_merge_structures.simps well_formed_Node kinds_def
      object_node_def get_properties_def dict_get_def leaf_def array_node_def)

end
